theory Spec2Isabelle
  imports Complex_Main
begin

section \<open>Data model of the GbiasInvestigatr analysis\<close>

text \<open>
  The analysis is a single class with three hooks called by the host framework:
  \<open>init\<close> once, \<open>analyze\<close> once per event, \<open>finalize\<close> once. Its members are the
  output stream, two flags, an event counter and the map of values to print.

  In this first model values of C++ type \<open>double\<close> are \<open>real\<close> numbers: the comparisons
  and the arithmetic of the source are read as exact. Where rounding decides what a
  statement says, in the angle test of the jet search and in the asymmetry, the source is
  modelled a second time in binary64 arithmetic, further below.
\<close>

text \<open>A reconstructed jet, read through \<open>momentum().pT()\<close>, \<open>momentum().phi()\<close> and
  the pseudorapidity that the cut \<open>Cuts::abseta\<close> inspects.\<close>

record Jet =
  pT :: real
  eta :: real
  phi :: real

text \<open>The heavy-ion block of the generator event (\<open>HepMC::HeavyIon\<close>), as far as it is read.\<close>

record HeavyIon =
  event_plane_angle :: real
  eccentricity :: real

text \<open>An event as the analysis sees it: the optional heavy-ion block (a pointer that may be
  null), the jets of the \<open>FastJets\<close> projection before any cut, and the weight vector.\<close>

record Event =
  heavy_ion :: "HeavyIon option"
  jets :: "Jet list"
  weights :: "real list"

text \<open>One insertion into the output stream: \<open>operator<<\<close> on a string (a \<open>std::string\<close> or a
  string literal), on a single \<open>char\<close>, or on a \<open>double\<close>.\<close>

datatype out = OStr string | OChar char | ODouble real

text \<open>Reading element 0 of an empty weight vector is the one place where the source reads a
  container out of range without a guard.\<close>

datatype error = WeightIndexOutOfRange

text \<open>The members of the class. The stream \<open>_file\<close> is its open status together with the
  sequence of insertions made so far; \<open>console\<close> is what was sent to \<open>std::cout\<close>. The
  counter \<open>_eventNumber\<close> is only ever incremented and never read, so its machine width
  plays no role and it is an \<open>int\<close> here.\<close>

record state =
  file_is_open :: bool
  file_out :: "out list"
  open_flag :: bool
  eventNumber :: int
  firstPrint :: bool
  toWrite :: "(string \<times> real) list"
  console :: string

subsection \<open>The map of values to print\<close>

text \<open>\<open>_toWrite\<close> is a \<open>std::map<std::string,double>\<close>: iteration visits the entries in
  ascending key order, where keys are compared as sequences of unsigned bytes. It is
  modelled as an association list kept in that order.\<close>

fun string_less :: "string \<Rightarrow> string \<Rightarrow> bool" where
  "string_less [] [] = False"
| "string_less [] (y # ys) = True"
| "string_less (x # xs) [] = False"
| "string_less (x # xs) (y # ys) =
     ((of_char x :: nat) < of_char y \<or> (x = y \<and> string_less xs ys))"

text \<open>\<open>m[k] = v\<close>: overwrite the entry of \<open>k\<close>, or insert it at its place in key order.\<close>

fun map_assign :: "string \<Rightarrow> real \<Rightarrow> (string \<times> real) list \<Rightarrow> (string \<times> real) list" where
  "map_assign k v [] = [(k, v)]"
| "map_assign k v ((k', v') # m) =
     (if k = k' then (k, v) # m
      else if string_less k k' then (k, v) # (k', v') # m
      else (k', v') # map_assign k v m)"

subsection \<open>Constants and operations of the host framework\<close>

text \<open>Modelled from the spec: the unit constant \<open>GeV\<close> of the host framework, which is not
  part of this source file. The spec gives all thresholds directly in GeV (20 GeV, 80 GeV),
  so the unit is 1.\<close>

definition GeV :: real where
  "GeV = 1"

text \<open>Modelled from the spec: \<open>jetsByPt\<close> of the host framework's jet projection, which is
  not part of this source file. The spec describes it as the sequence of reconstructed jets
  restricted to those passing the cut, ordered by descending transverse momentum.\<close>

definition jetsByPt :: "(Jet \<Rightarrow> bool) \<Rightarrow> Jet list \<Rightarrow> Jet list" where
  "jetsByPt c js = sort_key (\<lambda>j. - pT j) (filter c js)"

text \<open>The cut passed to \<open>jetsByPt\<close>: \<open>Cuts::abseta < 2.0 && Cuts::pT > 20*GeV\<close>.\<close>

definition jet_cut :: "Jet \<Rightarrow> bool" where
  "jet_cut j \<longleftrightarrow> \<bar>eta j\<bar> < 2.0 \<and> pT j > 20 * GeV"

section \<open>The operations\<close>

definition tab :: string where
  "tab = [CHR 0x09]"

definition newline :: char where
  "newline = CHR 0x0A"

text \<open>\<open>print(var)\<close>: nothing when the stream is not open; the keys, each followed by a tab,
  and a newline when \<open>var\<close> is set; otherwise the values in the same way.\<close>

definition header_line :: "(string \<times> real) list \<Rightarrow> out list" where
  "header_line m = concat (map (\<lambda>it. [OStr (fst it), OStr tab]) m) @ [OChar newline]"

definition row_line :: "(string \<times> real) list \<Rightarrow> out list" where
  "row_line m = concat (map (\<lambda>it. [ODouble (snd it), OStr tab]) m) @ [OChar newline]"

definition print :: "bool \<Rightarrow> state \<Rightarrow> state" where
  "print var s =
     (if \<not> file_is_open s then s
      else if var then s\<lparr>file_out := file_out s @ header_line (toWrite s)\<rparr>
      else s\<lparr>file_out := file_out s @ row_line (toWrite s)\<rparr>)"

text \<open>The message of \<open>init\<close> when the file could not be opened.\<close>

definition warning :: string where
  "warning = ''[WARNING] Could not open file.'' @ [newline]"

text \<open>What \<open>init\<close> sends to \<open>std::cout\<close> around reading the name.\<close>

definition prompt :: string where
  "prompt = [newline, newline] @ ''Out file name: '' @ [newline]"

text \<open>The name of the file that is opened, given the word read from standard input.\<close>

definition file_name :: "string \<Rightarrow> string" where
  "file_name name = (if name = ''e'' @ [newline] then ''eventdata.dat'' else name)"

text \<open>\<open>init\<close>: the counter and the header flag are reset, the file name is read from standard
  input and the file is opened. Whether opening a path succeeds is a property of the
  environment, passed as \<open>can_open\<close>; \<open>name\<close> is the word read from standard input. The
  object is freshly constructed, so the map is empty and nothing has been written.\<close>

definition init :: "(string \<Rightarrow> bool) \<Rightarrow> string \<Rightarrow> state" where
  "init can_open name =
     (if can_open (file_name name)
      then \<lparr>file_is_open = True, file_out = [], open_flag = True, eventNumber = 0,
            firstPrint = True, toWrite = [], console = prompt\<rparr>
      else \<lparr>file_is_open = False, file_out = [], open_flag = False, eventNumber = 0,
            firstPrint = True, toWrite = [], console = prompt @ warning\<rparr>)"

text \<open>The loop of \<open>analyze\<close> that looks for the second jet: the first jet of the list whose
  azimuthal distance to \<open>j1\<close> is within \<open>PI/8\<close> of \<open>PI\<close>; \<open>None\<close> is \<open>jetFound == false\<close>.
  Here the test is read in exact arithmetic with \<open>PI = pi\<close>; \<open>find_jet64\<close> below is the
  same loop in binary64.\<close>

fun find_jet :: "Jet \<Rightarrow> Jet list \<Rightarrow> Jet option" where
  "find_jet j1 [] = None"
| "find_jet j1 (j # js) =
     (let ang = \<bar>phi j1 - phi j\<bar>
      in if \<bar>ang - pi\<bar> < pi / 8 then Some j else find_jet j1 js)"

text \<open>The selection part of \<open>analyze\<close>: the jet list after the cut, the size test, the test
  on the leading jet and the search for the second jet. \<open>None\<close> stands for each of the three
  places where the source leaves through \<open>vetoEvent\<close>.\<close>

definition select_jets :: "Event \<Rightarrow> (Jet \<times> Jet) option" where
  "select_jets event =
     (let jetlist = jetsByPt jet_cut (jets event)
      in if length jetlist > 1 then
           (let j1 = hd jetlist
            in if pT j1 < 80 * GeV then None
               else (case find_jet j1 jetlist of
                       None \<Rightarrow> None
                     | Some j2 \<Rightarrow> Some (j1, j2)))
         else None)"

text \<open>The assignments to the map for a selected pair of jets, in exact arithmetic; \<open>Aj64\<close>
  below is the asymmetry in binary64.\<close>

definition record_jets :: "Jet \<Rightarrow> Jet \<Rightarrow> (string \<times> real) list \<Rightarrow> (string \<times> real) list" where
  "record_jets j1 j2 m =
     (let m1 = map_assign ''Jet1_pT'' (pT j1) m;
          m2 = map_assign ''Jet2_pT'' (pT j2) m1;
          m3 = map_assign ''JetAngle'' (\<bar>phi j1 - phi j2\<bar> * 180 / pi) m2;
          m4 = map_assign ''Jet1_Ang'' (phi j1) m3;
          E1 = pT j1;
          E2 = pT j2;
          Aj = (E1 - E2) / (E1 + E2)
      in map_assign ''Aj'' Aj m4)"

text \<open>The heavy-ion block, when present, is read before anything else.\<close>

definition record_heavy_ion :: "Event \<Rightarrow> (string \<times> real) list \<Rightarrow> (string \<times> real) list" where
  "record_heavy_ion event m =
     (case heavy_ion event of
        None \<Rightarrow> m
      | Some hion \<Rightarrow>
          map_assign ''JProdR'' (eccentricity hion)
            (map_assign ''Polar'' (event_plane_angle hion) m))"

text \<open>\<open>analyze\<close>. A vetoed event returns right after the heavy-ion block was read. For a
  selected event the jet values and the first weight are stored, the header is printed if
  it has not been, the counter is incremented and the row is printed. The hooks of the base
  class \<open>MC_JetAnalysis\<close>, called at the end of \<open>init\<close>, \<open>analyze\<close> and \<open>finalize\<close>, fill
  histograms of the base class and touch none of the members above; they are left out.\<close>

definition analyze :: "Event \<Rightarrow> state \<Rightarrow> error + state" where
  "analyze event s =
     (let s1 = s\<lparr>toWrite := record_heavy_ion event (toWrite s)\<rparr>
      in case select_jets event of
           None \<Rightarrow> Inr s1
         | Some (j1, j2) \<Rightarrow>
             (let s2 = s1\<lparr>toWrite := record_jets j1 j2 (toWrite s1)\<rparr>
              in case weights event of
                   [] \<Rightarrow> Inl WeightIndexOutOfRange
                 | w # ws \<Rightarrow>
                     (let s3 = s2\<lparr>toWrite := map_assign ''Weight'' w (toWrite s2)\<rparr>;
                          s4 = (if firstPrint s3
                                then (print True s3)\<lparr>firstPrint := False\<rparr>
                                else s3);
                          s5 = s4\<lparr>eventNumber := eventNumber s4 + 1\<rparr>
                      in Inr (print False s5))))"

text \<open>\<open>finalize\<close>: the stream is closed when it had been opened.\<close>

definition finalize :: "state \<Rightarrow> state" where
  "finalize s =
     (if open_flag s
      then s\<lparr>file_is_open := False,
              console := console s @ ''Everything written to file.'' @ [newline]\<rparr>
      else s)"

text \<open>A run: the events are handed to \<open>analyze\<close> one after the other; an out-of-range read
  ends it.\<close>

fun run_events :: "Event list \<Rightarrow> state \<Rightarrow> error + state" where
  "run_events [] s = Inr s"
| "run_events (e # es) s =
     (case analyze e s of Inl err \<Rightarrow> Inl err | Inr s' \<Rightarrow> run_events es s')"

section \<open>The arithmetic of the selection in binary64\<close>

text \<open>
  The definitions above read the arithmetic of the source as exact. Two computations of
  \<open>analyze\<close> can come out differently in \<open>double\<close> arithmetic at inputs the program can
  receive: the angle test of the jet search, which compares against \<open>PI = M_PI\<close>, the
  double next to \<open>pi\<close>, and the asymmetry \<open>(E1 - E2) / (E1 + E2)\<close>. This section models
  the selection and the asymmetry a second time, with every operation on \<open>double\<close> as
  IEEE 754 binary64 defines it: the exact result rounded to the nearest double, ties to the
  even significand, with infinities, signed zeros and NaN.
\<close>

subsection \<open>Rounding\<close>

text \<open>The integer nearest to \<open>q\<close>, the even one of the two at a tie.\<close>

definition round_half_even :: "real \<Rightarrow> int" where
  "round_half_even q =
     (let f = \<lfloor>q\<rfloor>
      in if q - of_int f < 1 / 2 then f
         else if 1 / 2 < q - of_int f then f + 1
         else if even f then f else f + 1)"

text \<open>The exponent of the binade of a nonzero \<open>x\<close>, not below the one of the subnormal
  numbers, and the spacing of the doubles in that binade (53 significant bits).\<close>

definition binade :: "real \<Rightarrow> int" where
  "binade x = max \<lfloor>log 2 \<bar>x\<bar>\<rfloor> (- 1022)"

definition quantum :: "real \<Rightarrow> real" where
  "quantum x = 2 powr of_int (binade x - 52)"

text \<open>The double nearest to \<open>x\<close>, before the test for overflow.\<close>

definition round_real :: "real \<Rightarrow> real" where
  "round_real x = (if x = 0 then 0 else of_int (round_half_even (x / quantum x)) * quantum x)"

text \<open>A result whose rounded magnitude reaches \<open>2^1024\<close> overflows. A real number is a
  finite double when rounding leaves it as it is and it is below that threshold.\<close>

definition overflow_threshold :: real where
  "overflow_threshold = 2 powr 1024"

definition representable :: "real \<Rightarrow> bool" where
  "representable x \<longleftrightarrow> round_real x = x \<and> \<bar>x\<bar> < overflow_threshold"

subsection \<open>Values and operations\<close>

text \<open>A \<open>double\<close>: a finite number (\<open>Finite 0\<close> is the zero with positive sign), the zero
  with negative sign, the two infinities, or a NaN.\<close>

datatype double = Finite real | NegZero | PlusInf | MinusInf | NaN

text \<open>Rounding of an exact result to a \<open>double\<close>: overflow gives the infinity of the sign of
  the result, underflow to zero keeps the sign.\<close>

definition round64 :: "real \<Rightarrow> double" where
  "round64 x =
     (let r = round_real x
      in if overflow_threshold \<le> \<bar>r\<bar> then (if 0 < x then PlusInf else MinusInf)
         else if r = 0 then (if 0 \<le> x then Finite 0 else NegZero)
         else Finite r)"

text \<open>Negation and \<open>fabs\<close> act on the sign only.\<close>

fun dneg :: "double \<Rightarrow> double" where
  "dneg (Finite x) = (if x = 0 then NegZero else Finite (- x))"
| "dneg NegZero = Finite 0"
| "dneg PlusInf = MinusInf"
| "dneg MinusInf = PlusInf"
| "dneg NaN = NaN"

fun dabs :: "double \<Rightarrow> double" where
  "dabs (Finite x) = Finite \<bar>x\<bar>"
| "dabs NegZero = Finite 0"
| "dabs PlusInf = PlusInf"
| "dabs MinusInf = PlusInf"
| "dabs NaN = NaN"

text \<open>Addition. A NaN operand gives NaN, as does the sum of opposite infinities; a zero of
  negative sign is neutral except that the sum of two of them keeps the negative sign; an
  exact sum of zero has positive sign. Subtraction adds the negated operand.\<close>

fun dadd :: "double \<Rightarrow> double \<Rightarrow> double" where
  "dadd NaN b = NaN"
| "dadd a NaN = NaN"
| "dadd PlusInf MinusInf = NaN"
| "dadd MinusInf PlusInf = NaN"
| "dadd PlusInf b = PlusInf"
| "dadd a PlusInf = PlusInf"
| "dadd MinusInf b = MinusInf"
| "dadd a MinusInf = MinusInf"
| "dadd NegZero b = b"
| "dadd a NegZero = a"
| "dadd (Finite x) (Finite y) = round64 (x + y)"

definition dsub :: "double \<Rightarrow> double \<Rightarrow> double" where
  "dsub a b = dadd a (dneg b)"

text \<open>The comparison \<open><\<close>: false whenever an operand is NaN; the two zeros are equal.\<close>

fun dless :: "double \<Rightarrow> double \<Rightarrow> bool" where
  "dless NaN b = False"
| "dless a NaN = False"
| "dless a MinusInf = False"
| "dless MinusInf b = True"
| "dless PlusInf b = False"
| "dless a PlusInf = True"
| "dless (Finite x) (Finite y) = (x < y)"
| "dless (Finite x) NegZero = (x < 0)"
| "dless NegZero (Finite y) = (0 < y)"
| "dless NegZero NegZero = False"

text \<open>Sign bit, zero test, infinity test and absolute value of a finite operand, for division
  and multiplication.\<close>

fun negative :: "double \<Rightarrow> bool" where
  "negative (Finite x) = (x < 0)"
| "negative NegZero = True"
| "negative PlusInf = False"
| "negative MinusInf = True"
| "negative NaN = False"

fun is_zero :: "double \<Rightarrow> bool" where
  "is_zero (Finite x) = (x = 0)"
| "is_zero NegZero = True"
| "is_zero d = False"

fun is_inf :: "double \<Rightarrow> bool" where
  "is_inf PlusInf = True"
| "is_inf MinusInf = True"
| "is_inf d = False"

fun magnitude :: "double \<Rightarrow> real" where
  "magnitude (Finite x) = \<bar>x\<bar>"
| "magnitude d = 0"

definition signed_zero :: "bool \<Rightarrow> double" where
  "signed_zero neg = (if neg then NegZero else Finite 0)"

definition signed_inf :: "bool \<Rightarrow> double" where
  "signed_inf neg = (if neg then MinusInf else PlusInf)"

definition signed_round :: "bool \<Rightarrow> real \<Rightarrow> double" where
  "signed_round neg m = round64 (if neg then - m else m)"

text \<open>Division and multiplication: the sign of the result is the exclusive or of the signs of
  the operands; \<open>inf/inf\<close>, \<open>0/0\<close> and \<open>0 * inf\<close> are NaN.\<close>

definition ddiv :: "double \<Rightarrow> double \<Rightarrow> double" where
  "ddiv a b =
     (if a = NaN \<or> b = NaN then NaN
      else if is_inf a then (if is_inf b then NaN else signed_inf (negative a \<noteq> negative b))
      else if is_inf b then signed_zero (negative a \<noteq> negative b)
      else if is_zero b
           then (if is_zero a then NaN else signed_inf (negative a \<noteq> negative b))
      else if is_zero a then signed_zero (negative a \<noteq> negative b)
      else signed_round (negative a \<noteq> negative b) (magnitude a / magnitude b))"

definition dmul :: "double \<Rightarrow> double \<Rightarrow> double" where
  "dmul a b =
     (if a = NaN \<or> b = NaN then NaN
      else if is_inf a \<or> is_inf b
           then (if is_zero a \<or> is_zero b then NaN
                 else signed_inf (negative a \<noteq> negative b))
      else if is_zero a \<or> is_zero b then signed_zero (negative a \<noteq> negative b)
      else signed_round (negative a \<noteq> negative b) (magnitude a * magnitude b))"

subsection \<open>The selection and the asymmetry\<close>

text \<open>The constant \<open>PI\<close> of the source is \<open>M_PI\<close>, the double
  \<open>0x400921FB54442D18 = 884279719003555 / 2^48\<close>, which is smaller than \<open>pi\<close>.\<close>

definition M_PI :: real where
  "M_PI = 884279719003555 / 2 ^ 48"

definition PI64 :: double where
  "PI64 = Finite M_PI"

text \<open>Modelled from the spec: the unit constant \<open>GeV\<close> of the host framework, which is not
  part of this source file, as a \<open>double\<close>. The spec gives all thresholds directly in GeV.\<close>

definition GeV64 :: double where
  "GeV64 = Finite 1"

text \<open>A jet with the values the source reads from it, as doubles.\<close>

record Jet64 =
  pT64 :: double
  eta64 :: double
  phi64 :: double

text \<open>The cut \<open>Cuts::abseta < 2.0 && Cuts::pT > 20*GeV\<close>.\<close>

definition jet_cut64 :: "Jet64 \<Rightarrow> bool" where
  "jet_cut64 j \<longleftrightarrow> dless (dabs (eta64 j)) (Finite 2) \<and> dless (dmul (Finite 20) GeV64) (pT64 j)"

text \<open>Modelled from the spec: \<open>jetsByPt\<close> of the host framework's jet projection, which is
  not part of this source file: the jets passing the cut, ordered by descending transverse
  momentum. A jet is inserted before the first jet whose \<open>pT\<close> is not larger than its own,
  so jets of equal \<open>pT\<close> keep their order.\<close>

fun insert_by_pT :: "Jet64 \<Rightarrow> Jet64 list \<Rightarrow> Jet64 list" where
  "insert_by_pT j [] = [j]"
| "insert_by_pT j (k # ks) =
     (if dless (pT64 j) (pT64 k) then k # insert_by_pT j ks else j # k # ks)"

definition jetsByPt64 :: "(Jet64 \<Rightarrow> bool) \<Rightarrow> Jet64 list \<Rightarrow> Jet64 list" where
  "jetsByPt64 c js = foldr insert_by_pT (filter c js) []"

text \<open>The loop of \<open>analyze\<close> that looks for the second jet, with the test
  \<open>fabs(ang-PI) < PI/8.\<close> on \<open>ang = fabs(j1.phi() - j.phi())\<close> evaluated in doubles.\<close>

fun find_jet64 :: "Jet64 \<Rightarrow> Jet64 list \<Rightarrow> Jet64 option" where
  "find_jet64 j1 [] = None"
| "find_jet64 j1 (j # js) =
     (let ang = dabs (dsub (phi64 j1) (phi64 j))
      in if dless (dabs (dsub ang PI64)) (ddiv PI64 (Finite 8)) then Some j
         else find_jet64 j1 js)"

text \<open>The selection part of \<open>analyze\<close> on the jets of the event; \<open>None\<close> stands for each
  of the three places where the source leaves through \<open>vetoEvent\<close>.\<close>

definition select_jets64 :: "Jet64 list \<Rightarrow> (Jet64 \<times> Jet64) option" where
  "select_jets64 js =
     (let jetlist = jetsByPt64 jet_cut64 js
      in if length jetlist > 1 then
           (let j1 = hd jetlist
            in if dless (pT64 j1) (dmul (Finite 80) GeV64) then None
               else (case find_jet64 j1 jetlist of
                       None \<Rightarrow> None
                     | Some j2 \<Rightarrow> Some (j1, j2)))
         else None)"

text \<open>The asymmetry as the source computes it from \<open>E1 = j1.pT()\<close> and \<open>E2 = j2.pT()\<close>.\<close>

definition Aj64 :: "Jet64 \<Rightarrow> Jet64 \<Rightarrow> double" where
  "Aj64 j1 j2 =
     (let E1 = pT64 j1;
          E2 = pT64 j2
      in ddiv (dsub E1 E2) (dadd E1 E2))"

section \<open>Auxiliary notions used in the statements\<close>


text \<open>The map at the moment a selected event is printed: heavy-ion values, jet values and
  weight assigned in the order of the source.\<close>

definition final_record ::
  "Event \<Rightarrow> Jet \<Rightarrow> Jet \<Rightarrow> real \<Rightarrow> (string \<times> real) list \<Rightarrow> (string \<times> real) list" where
  "final_record e j1 j2 w m =
     map_assign ''Weight'' w (record_jets j1 j2 (record_heavy_ion e m))"


text \<open>Concrete jets and events for the examples.\<close>

definition jetA :: Jet where
  "jetA = \<lparr>pT = 100, eta = 0, phi = 0\<rparr>"

definition jetB :: Jet where
  "jetB = \<lparr>pT = 60, eta = 0, phi = pi\<rparr>"

definition ex_dijet :: Event where
  "ex_dijet = \<lparr>heavy_ion = None, jets = [jetA, jetB], weights = [1]\<rparr>"

definition ex_dijet_hi :: Event where
  "ex_dijet_hi =
     \<lparr>heavy_ion = Some \<lparr>event_plane_angle = 3, eccentricity = 5\<rparr>,
      jets = [jetA, jetB], weights = [1]\<rparr>"

definition ex_nojet_hi :: Event where
  "ex_nojet_hi =
     \<lparr>heavy_ion = Some \<lparr>event_plane_angle = 7, eccentricity = 9\<rparr>,
      jets = [], weights = [1]\<rparr>"

definition ex_single :: Event where
  "ex_single = \<lparr>heavy_ion = None, jets = [jetA], weights = [1]\<rparr>"

definition ex_soft :: Event where
  "ex_soft =
     \<lparr>heavy_ion = None,
      jets = [\<lparr>pT = 70, eta = 0, phi = 0\<rparr>, \<lparr>pT = 50, eta = 1, phi = pi\<rparr>],
      weights = [1]\<rparr>"

definition ex_collinear :: Event where
  "ex_collinear =
     \<lparr>heavy_ion = None,
      jets = [jetA, \<lparr>pT = 60, eta = 0, phi = 0\<rparr>],
      weights = [1]\<rparr>"

definition s_open :: state where
  "s_open = init (\<lambda>path. True) ''out.dat''"

definition s_closed :: state where
  "s_closed = init (\<lambda>path. False) ''out.dat''"

text \<open>Jets for the examples in binary64: a leading jet at \<open>phi = 0\<close>, a jet at the upper edge
  of the window, \<open>phi = 9*M_PI/8\<close>, a jet exactly opposite, and a pair whose transverse
  momenta differ by seventeen orders of magnitude.\<close>

definition j_lead :: Jet64 where
  "j_lead = \<lparr>pT64 = Finite 100, eta64 = Finite 0, phi64 = Finite 0\<rparr>"

definition j_edge :: Jet64 where
  "j_edge = \<lparr>pT64 = Finite 60, eta64 = Finite 0, phi64 = Finite (9 * M_PI / 8)\<rparr>"

definition j_back :: Jet64 where
  "j_back = \<lparr>pT64 = Finite 50, eta64 = Finite 0, phi64 = PI64\<rparr>"

definition j_hard :: Jet64 where
  "j_hard = \<lparr>pT64 = Finite 1000000000000000000, eta64 = Finite 0, phi64 = Finite 0\<rparr>"

definition j_soft :: Jet64 where
  "j_soft = \<lparr>pT64 = Finite 21, eta64 = Finite 0, phi64 = PI64\<rparr>"

text \<open>What has been written to the file after a call that returned; the value stored under
  a key after a call that returned.\<close>

definition file_after :: "error + state \<Rightarrow> out list" where
  "file_after r = (case r of Inl err \<Rightarrow> [] | Inr s \<Rightarrow> file_out s)"

definition field_after :: "string \<Rightarrow> error + state \<Rightarrow> real option" where
  "field_after k r = (case r of Inl err \<Rightarrow> None | Inr s \<Rightarrow> map_of (toWrite s) k)"



section \<open>Basic facts\<close>

subsection \<open>The map\<close>


lemma map_of_map_assign: "map_of (map_assign k v m) = (map_of m)(k \<mapsto> v)"
  by (induction m) (auto simp: fun_upd_twist)

lemma record_heavy_ion_None: "heavy_ion e = None \<Longrightarrow> record_heavy_ion e m = m"
  by (simp add: record_heavy_ion_def)

lemma map_of_record_heavy_ion_other:
  "k \<noteq> ''Polar'' \<Longrightarrow> k \<noteq> ''JProdR'' \<Longrightarrow> map_of (record_heavy_ion e m) k = map_of m k"
  by (simp add: record_heavy_ion_def map_of_map_assign split: option.split)

lemma map_of_record_heavy_ion_Some:
  assumes "heavy_ion e = Some hion"
  shows "map_of (record_heavy_ion e m) ''Polar'' = Some (event_plane_angle hion)"
    and "map_of (record_heavy_ion e m) ''JProdR'' = Some (eccentricity hion)"
  using assms by (simp_all add: record_heavy_ion_def map_of_map_assign)

lemma map_of_final_record:
  "map_of (final_record e j1 j2 w m) =
     (map_of (record_heavy_ion e m))
       (''Jet1_pT'' \<mapsto> pT j1, ''Jet2_pT'' \<mapsto> pT j2,
        ''JetAngle'' \<mapsto> \<bar>phi j1 - phi j2\<bar> * 180 / pi, ''Jet1_Ang'' \<mapsto> phi j1,
        ''Aj'' \<mapsto> (pT j1 - pT j2) / (pT j1 + pT j2), ''Weight'' \<mapsto> w)"
  by (simp only: final_record_def record_jets_def Let_def map_of_map_assign)












subsection \<open>The jet list and the selection\<close>

lemma set_jetsByPt: "set (jetsByPt c js) = {j \<in> set js. c j}"
  by (auto simp: jetsByPt_def)

lemma length_jetsByPt: "length (jetsByPt c js) = length (filter c js)"
  by (simp add: jetsByPt_def)

lemma sorted_jetsByPt: "sorted (map (\<lambda>j. - pT j) (jetsByPt c js))"
  by (simp add: jetsByPt_def)

lemma descending_pT:
  "sorted (map (\<lambda>j. - pT j) js) = sorted_wrt (\<lambda>a b. pT b \<le> pT a) js"
  by (simp add: sorted_map)

lemma hd_jetsByPt_max:
  assumes "j \<in> set (jetsByPt c js)"
  shows "pT j \<le> pT (hd (jetsByPt c js))"
proof -
  from assms obtain x xs where eq: "jetsByPt c js = x # xs"
    by (cases "jetsByPt c js") auto
  have "sorted (map (\<lambda>j. - pT j) (x # xs))"
    using sorted_jetsByPt[of c js] eq by simp
  then have "\<forall>y\<in>set xs. pT y \<le> pT x" by auto
  with assms eq show ?thesis by auto
qed

lemma find_jet_None:
  "find_jet j1 js = None \<longleftrightarrow> (\<forall>j\<in>set js. \<not> \<bar>\<bar>phi j1 - phi j\<bar> - pi\<bar> < pi / 8)"
  by (induction js) (auto simp: Let_def)

lemma find_jet_Some:
  "find_jet j1 js = Some j2 \<Longrightarrow>
     \<exists>pre post. js = pre @ j2 # post
        \<and> (\<forall>j\<in>set pre. \<not> \<bar>\<bar>phi j1 - phi j\<bar> - pi\<bar> < pi / 8)
        \<and> \<bar>\<bar>phi j1 - phi j2\<bar> - pi\<bar> < pi / 8"
proof (induction js)
  case Nil
  then show ?case by simp
next
  case (Cons j js)
  show ?case
  proof (cases "\<bar>\<bar>phi j1 - phi j\<bar> - pi\<bar> < pi / 8")
    case True
    with Cons.prems have "j2 = j" by (simp add: Let_def)
    with True have "j # js = [] @ j2 # js
        \<and> (\<forall>j\<in>set []. \<not> \<bar>\<bar>phi j1 - phi j\<bar> - pi\<bar> < pi / 8)
        \<and> \<bar>\<bar>phi j1 - phi j2\<bar> - pi\<bar> < pi / 8"
      by simp
    then show ?thesis by blast
  next
    case False
    with Cons.prems have "find_jet j1 js = Some j2" by (simp add: Let_def)
    from Cons.IH[OF this] obtain pre post where
      "js = pre @ j2 # post"
      "\<forall>j\<in>set pre. \<not> \<bar>\<bar>phi j1 - phi j\<bar> - pi\<bar> < pi / 8"
      "\<bar>\<bar>phi j1 - phi j2\<bar> - pi\<bar> < pi / 8"
      by blast
    with False have "j # js = (j # pre) @ j2 # post
        \<and> (\<forall>j\<in>set (j # pre). \<not> \<bar>\<bar>phi j1 - phi j\<bar> - pi\<bar> < pi / 8)
        \<and> \<bar>\<bar>phi j1 - phi j2\<bar> - pi\<bar> < pi / 8"
      by simp
    then show ?thesis by blast
  qed
qed

lemma self_not_opposite: "\<not> \<bar>\<bar>phi j - phi j\<bar> - pi\<bar> < pi / 8"
  using pi_gt_zero by simp

lemma select_jets_SomeD:
  assumes "select_jets e = Some (j1, j2)"
  shows "length (jetsByPt jet_cut (jets e)) > 1" "j1 = hd (jetsByPt jet_cut (jets e))"
    "\<not> pT j1 < 80 * GeV" "find_jet j1 (jetsByPt jet_cut (jets e)) = Some j2"
  using assms by (auto simp: select_jets_def Let_def split: if_splits option.splits)

lemma select_jets_cut:
  assumes "select_jets e = Some (j1, j2)"
  shows "jet_cut j1" "jet_cut j2" "pT j2 \<le> pT j1"
proof -
  let ?jl = "jetsByPt jet_cut (jets e)"
  note d = select_jets_SomeD[OF assms]
  from d(1,2) have "j1 \<in> set ?jl" by (cases ?jl) auto
  then show "jet_cut j1" by (simp add: set_jetsByPt)
  from find_jet_Some[OF d(4)] have m: "j2 \<in> set ?jl" by auto
  then show "jet_cut j2" by (simp add: set_jetsByPt)
  from hd_jetsByPt_max[OF m] d(2) show "pT j2 \<le> pT j1" by simp
qed

subsection \<open>One call of \<open>analyze\<close>\<close>

lemma analyze_veto:
  "select_jets e = None \<Longrightarrow> analyze e s = Inr (s\<lparr>toWrite := record_heavy_ion e (toWrite s)\<rparr>)"
  by (simp add: analyze_def)

lemma analyze_accept:
  assumes "select_jets e = Some (j1, j2)" and "weights e = w # ws"
  shows "analyze e s =
     Inr (s\<lparr>toWrite := final_record e j1 j2 w (toWrite s),
            firstPrint := False,
            eventNumber := eventNumber s + 1,
            file_out :=
              (if file_is_open s
               then file_out s
                    @ (if firstPrint s
                       then header_line (final_record e j1 j2 w (toWrite s)) else [])
                    @ row_line (final_record e j1 j2 w (toWrite s))
               else file_out s)\<rparr>)"
  using assms by (simp add: analyze_def print_def final_record_def)

lemma analyze_empty_weights:
  "select_jets e = Some p \<Longrightarrow> weights e = [] \<Longrightarrow> analyze e s = Inl WeightIndexOutOfRange"
  by (cases p) (simp add: analyze_def)


lemma analyze_keeps_stream:
  "analyze e s = Inr s' \<Longrightarrow>
     file_is_open s' = file_is_open s \<and> open_flag s' = open_flag s \<and> console s' = console s"
  by (auto simp: analyze_def print_def Let_def split: option.splits list.splits if_splits prod.splits)

lemma analyze_closed:
  assumes "\<not> file_is_open s" and "weights e \<noteq> []"
  shows "\<exists>s'. analyze e s = Inr s' \<and> file_out s' = file_out s"
proof (cases "select_jets e")
  case None
  then show ?thesis by (simp add: analyze_veto)
next
  case (Some p)
  obtain j1 j2 where p: "p = (j1, j2)" by (cases p)
  from assms(2) obtain w ws where w: "weights e = w # ws" by (cases "weights e") auto
  show ?thesis using assms(1) by (simp add: analyze_accept[OF Some[unfolded p] w])
qed

lemma analyze_keeps_heavy_ion_fields:
  assumes "heavy_ion e = None" and "analyze e s = Inr s'"
  shows "map_of (toWrite s') ''Polar'' = map_of (toWrite s) ''Polar''
       \<and> map_of (toWrite s') ''JProdR'' = map_of (toWrite s) ''JProdR''"
proof (cases "select_jets e")
  case None
  with assms show ?thesis by (auto simp: analyze_veto record_heavy_ion_None)
next
  case (Some p)
  obtain j1 j2 where p: "p = (j1, j2)" by (cases p)
  show ?thesis
  proof (cases "weights e")
    case Nil
    with Some assms(2) show ?thesis by (simp add: analyze_empty_weights)
  next
    case (Cons w ws)
    from assms(2) have "toWrite s' = final_record e j1 j2 w (toWrite s)"
      using Some p Cons by (auto simp: analyze_accept)
    then show ?thesis
      by (simp add: map_of_final_record record_heavy_ion_None[OF assms(1)])
  qed
qed


subsection \<open>Runs\<close>

lemma run_events_single: "run_events [e] s = analyze e s"
  by (simp split: sum.split)

lemma run_events_step: "analyze e s = Inr s1 \<Longrightarrow> run_events (e # es) s = run_events es s1"
  by simp



lemma run_closed:
  assumes "\<not> file_is_open s" and "\<forall>e\<in>set es. weights e \<noteq> []"
  shows "\<exists>s'. run_events es s = Inr s' \<and> file_out s' = file_out s
           \<and> file_is_open s' = file_is_open s \<and> open_flag s' = open_flag s
           \<and> console s' = console s"
  using assms
proof (induction es arbitrary: s)
  case Nil
  then show ?case by simp
next
  case (Cons e es)
  from Cons.prems have "weights e \<noteq> []" by simp
  from analyze_closed[OF Cons.prems(1) this] obtain s1 where
    s1: "analyze e s = Inr s1" "file_out s1 = file_out s" by blast
  note k = analyze_keeps_stream[OF s1(1)]
  from k Cons.prems have "\<not> file_is_open s1" "\<forall>e\<in>set es. weights e \<noteq> []" by simp_all
  from Cons.IH[OF this] obtain s' where
    "run_events es s1 = Inr s'" "file_out s' = file_out s1"
    "file_is_open s' = file_is_open s1" "open_flag s' = open_flag s1" "console s' = console s1"
    by blast
  with s1 k show ?case by simp
qed



lemma run_keeps_heavy_ion_fields:
  assumes "\<forall>x\<in>set es. heavy_ion x = None" and "run_events es s = Inr s'"
  shows "map_of (toWrite s') ''Polar'' = map_of (toWrite s) ''Polar''
       \<and> map_of (toWrite s') ''JProdR'' = map_of (toWrite s) ''JProdR''"
  using assms
proof (induction es arbitrary: s)
  case Nil
  then show ?case by simp
next
  case (Cons e es)
  from Cons.prems(2) obtain s1 where s1: "analyze e s = Inr s1" "run_events es s1 = Inr s'"
    by (auto split: sum.splits)
  from Cons.prems(1) have h: "heavy_ion e = None" and r: "\<forall>x\<in>set es. heavy_ion x = None"
    by simp_all
  from analyze_keeps_heavy_ion_fields[OF h s1(1)] Cons.IH[OF r s1(2)]
  show ?case by simp
qed


subsection \<open>The example events\<close>

lemma s_open_simps:
  "file_is_open s_open" "file_out s_open = []" "firstPrint s_open" "toWrite s_open = []"
  "eventNumber s_open = 0"
  by (simp_all add: s_open_def init_def)

lemma jets_ex_dijet: "jetsByPt jet_cut (jets ex_dijet) = [jetA, jetB]"
  by (simp add: ex_dijet_def jetsByPt_def jet_cut_def jetA_def jetB_def GeV_def)

lemma select_ex_dijet: "select_jets ex_dijet = Some (jetA, jetB)"
  by (simp add: select_jets_def jets_ex_dijet) (simp add: jetA_def jetB_def GeV_def)



lemma select_ex_nojet_hi: "select_jets ex_nojet_hi = None"
  by (simp add: select_jets_def ex_nojet_hi_def jetsByPt_def)


lemma jets_ex_collinear:
  "jetsByPt jet_cut (jets ex_collinear) = [jetA, \<lparr>pT = 60, eta = 0, phi = 0\<rparr>]"
  by (simp add: ex_collinear_def jetsByPt_def jet_cut_def jetA_def GeV_def)

lemma analyze_ex_dijet:
  "analyze ex_dijet s = Inr (s\<lparr>toWrite := final_record ex_dijet jetA jetB 1 (toWrite s),
            firstPrint := False,
            eventNumber := eventNumber s + 1,
            file_out :=
              (if file_is_open s
               then file_out s
                    @ (if firstPrint s
                       then header_line (final_record ex_dijet jetA jetB 1 (toWrite s)) else [])
                    @ row_line (final_record ex_dijet jetA jetB 1 (toWrite s))
               else file_out s)\<rparr>)"
  by (rule analyze_accept[OF select_ex_dijet]) (simp add: ex_dijet_def)


lemma analyze_ex_nojet_hi:
  "analyze ex_nojet_hi s_open = Inr (s_open\<lparr>toWrite := [(''JProdR'', 9), (''Polar'', 7)]\<rparr>)"
  by (simp add: analyze_veto[OF select_ex_nojet_hi] s_open_simps)
     (simp add: record_heavy_ion_def ex_nojet_hi_def)



lemma record_ex_dijet_stale:
  "final_record ex_dijet jetA jetB 1 [(''JProdR'', 9), (''Polar'', 7)] =
     [(''Aj'', 1 / 4), (''JProdR'', 9), (''Jet1_Ang'', 0), (''Jet1_pT'', 100),
      (''Jet2_pT'', 60), (''JetAngle'', 180), (''Polar'', 7), (''Weight'', 1)]"
  by (simp add: final_record_def record_jets_def record_heavy_ion_def ex_dijet_def
      jetA_def jetB_def)



lemma file_after_stale:
  "file_after (run_events [ex_nojet_hi, ex_dijet] s_open) =
     header_line (final_record ex_dijet jetA jetB 1 [(''JProdR'', 9), (''Polar'', 7)])
     @ row_line (final_record ex_dijet jetA jetB 1 [(''JProdR'', 9), (''Polar'', 7)])"
proof -
  define s1 where "s1 = s_open\<lparr>toWrite := [(''JProdR'', 9), (''Polar'', 7)]\<rparr>"
  have o: "file_is_open s1" "firstPrint s1" "file_out s1 = []"
    "toWrite s1 = [(''JProdR'', 9), (''Polar'', 7)]"
    by (simp_all add: s1_def s_open_simps)
  have a: "analyze ex_nojet_hi s_open = Inr s1"
    unfolding s1_def by (rule analyze_ex_nojet_hi)
  have "run_events [ex_nojet_hi, ex_dijet] s_open = analyze ex_dijet s1"
    by (simp only: run_events_step[OF a] run_events_single)
  then show ?thesis
    by (simp add: file_after_def analyze_ex_dijet o)
qed


subsection \<open>Binary64 arithmetic and the selection in binary64\<close>






lemma round_half_even_near:
  assumes "\<bar>q - of_int n\<bar> < 1 / 2"
  shows "round_half_even q = n"
proof (cases "of_int n \<le> q")
  case True
  with assms have "\<lfloor>q\<rfloor> = n" by (intro floor_unique) auto
  with assms True show ?thesis by (simp add: round_half_even_def)
next
  case False
  with assms have f: "\<lfloor>q\<rfloor> = n - 1" by (intro floor_unique) auto
  from False assms have "1 / 2 < q - of_int (n - 1)" by simp
  with f show ?thesis by (simp add: round_half_even_def)
qed

lemma round_half_even_of_int [simp]: "round_half_even (of_int n) = n"
  by (rule round_half_even_near) simp

lemma round_half_even_cases:
  "round_half_even q = \<lfloor>q\<rfloor> \<or> round_half_even q = \<lfloor>q\<rfloor> + 1"
  by (simp add: round_half_even_def Let_def)

lemma round_half_even_mono:
  assumes "p \<le> q"
  shows "round_half_even p \<le> round_half_even q"
proof (cases "\<lfloor>p\<rfloor> = \<lfloor>q\<rfloor>")
  case True
  with assms show ?thesis by (auto simp: round_half_even_def Let_def)
next
  case False
  with assms have "\<lfloor>p\<rfloor> < \<lfloor>q\<rfloor>" using floor_mono[OF assms] by simp
  moreover have "round_half_even p \<le> \<lfloor>p\<rfloor> + 1"
    using round_half_even_cases[of p] by auto
  moreover have "\<lfloor>q\<rfloor> \<le> round_half_even q"
    using round_half_even_cases[of q] by auto
  ultimately show ?thesis by linarith
qed

lemma round_half_even_le: "q \<le> of_int n \<Longrightarrow> round_half_even q \<le> n"
  using round_half_even_mono[of q "of_int n"] by simp

lemma round_half_even_ge: "of_int n \<le> q \<Longrightarrow> n \<le> round_half_even q"
  using round_half_even_mono[of "of_int n" q] by simp

lemma quantum_pos: "0 < quantum x"
  by (simp add: quantum_def)

lemma binade_mono:
  assumes "0 < x" and "x \<le> y"
  shows "binade x \<le> binade y"
proof -
  have "log 2 \<bar>x\<bar> \<le> log 2 \<bar>y\<bar>" using assms by simp
  then have "\<lfloor>log 2 \<bar>x\<bar>\<rfloor> \<le> \<lfloor>log 2 \<bar>y\<bar>\<rfloor>" by (rule floor_mono)
  then show ?thesis by (simp add: binade_def)
qed

lemma below_next_binade:
  assumes "0 < x"
  shows "x < 2 powr of_int (binade x + 1)"
proof -
  have "log 2 x < of_int (\<lfloor>log 2 x\<rfloor> + 1)" by linarith
  also have "\<dots> \<le> of_int (binade x + 1)" using assms by (simp add: binade_def)
  finally have "log 2 x < of_int (binade x + 1)" .
  then show ?thesis using assms by (simp add: log_less_iff)
qed

lemma above_binade:
  assumes "0 < x" and "- 1022 < binade x"
  shows "2 powr of_int (binade x) \<le> x"
proof -
  from assms have "binade x = \<lfloor>log 2 x\<rfloor>" by (simp add: binade_def max_def split: if_splits)
  then have "of_int (binade x) \<le> log 2 x" by simp
  then show ?thesis using assms(1) by (simp add: le_log_iff)
qed

lemma round_real_nonneg:
  assumes "0 \<le> x"
  shows "0 \<le> round_real x"
proof (cases "x = 0")
  case True
  then show ?thesis by (simp add: round_real_def)
next
  case False
  with assms have "0 \<le> x / quantum x" using quantum_pos[of x] by simp
  then have "0 \<le> round_half_even (x / quantum x)"
    using round_half_even_ge[of 0] by simp
  with False show ?thesis using quantum_pos[of x] by (simp add: round_real_def)
qed

lemma round_real_upper:
  assumes "0 < x"
  shows "round_real x \<le> 2 powr of_int (binade x + 1)"
proof -
  have q: "(2::real) powr of_int (binade x + 1) = 2 ^ 53 * quantum x"
  proof -
    have "(2::real) powr of_int (binade x + 1) = 2 powr (53 + of_int (binade x - 52))"
      by (simp add: add.commute)
    also have "\<dots> = 2 powr 53 * 2 powr of_int (binade x - 52)" by (rule powr_add)
    finally show ?thesis by (simp add: quantum_def)
  qed
  have "x < 2 ^ 53 * quantum x"
    using below_next_binade[OF assms] unfolding q .
  then have "x / quantum x < 2 ^ 53"
    using quantum_pos[of x] by (simp add: pos_divide_less_eq)
  then have "x / quantum x \<le> of_int (2 ^ 53)" by simp
  then have "round_half_even (x / quantum x) \<le> 2 ^ 53" by (rule round_half_even_le)
  then have "of_int (round_half_even (x / quantum x)) \<le> (2 ^ 53 :: real)"
    by (metis of_int_le_iff of_int_numeral of_int_power)
  then have "of_int (round_half_even (x / quantum x)) * quantum x \<le> 2 ^ 53 * quantum x"
    using quantum_pos[of x] by (simp add: mult_right_mono)
  with assms show ?thesis unfolding q by (simp add: round_real_def)
qed

lemma round_real_lower:
  assumes "0 < x" and "- 1022 < binade x"
  shows "2 powr of_int (binade x) \<le> round_real x"
proof -
  have q: "(2::real) powr of_int (binade x) = 2 ^ 52 * quantum x"
  proof -
    have "(2::real) powr of_int (binade x) = 2 powr (52 + of_int (binade x - 52))" by simp
    also have "\<dots> = 2 powr 52 * 2 powr of_int (binade x - 52)" by (rule powr_add)
    finally show ?thesis by (simp add: quantum_def)
  qed
  have "2 ^ 52 * quantum x \<le> x"
    using above_binade[OF assms] unfolding q .
  then have "2 ^ 52 \<le> x / quantum x"
    using quantum_pos[of x] by (simp add: pos_le_divide_eq)
  then have "of_int (2 ^ 52) \<le> x / quantum x" by simp
  then have "2 ^ 52 \<le> round_half_even (x / quantum x)" by (rule round_half_even_ge)
  then have "(2 ^ 52 :: real) \<le> of_int (round_half_even (x / quantum x))"
    by (metis of_int_le_iff of_int_numeral of_int_power)
  then have "2 ^ 52 * quantum x \<le> of_int (round_half_even (x / quantum x)) * quantum x"
    using quantum_pos[of x] by (simp add: mult_right_mono)
  with assms show ?thesis unfolding q by (simp add: round_real_def)
qed

lemma round_real_mono_pos:
  assumes "0 < x" and "x \<le> y"
  shows "round_real x \<le> round_real y"
proof (cases "binade x = binade y")
  case True
  then have q: "quantum x = quantum y" by (simp add: quantum_def)
  have "x / quantum y \<le> y / quantum y"
    using assms(2) quantum_pos[of y] by (simp add: divide_right_mono)
  then have "round_half_even (x / quantum y) \<le> round_half_even (y / quantum y)"
    by (rule round_half_even_mono)
  then have "of_int (round_half_even (x / quantum y)) * quantum y
      \<le> of_int (round_half_even (y / quantum y)) * quantum y"
    using quantum_pos[of y] by (simp add: mult_right_mono)
  with assms q show ?thesis by (simp add: round_real_def)
next
  case False
  with binade_mono[OF assms] have lt: "binade x < binade y" by simp
  have y: "0 < y" using assms by simp
  have "- 1022 \<le> binade x" by (simp add: binade_def)
  with lt have n: "- 1022 < binade y" by simp
  have "round_real x \<le> 2 powr of_int (binade x + 1)" by (rule round_real_upper[OF assms(1)])
  also have "\<dots> \<le> 2 powr of_int (binade y)" using lt by simp
  also have "\<dots> \<le> round_real y" by (rule round_real_lower[OF y n])
  finally show ?thesis .
qed

lemma round_real_normal:
  assumes "- 1022 \<le> e" and "2 powr of_int e \<le> \<bar>x\<bar>" and "\<bar>x\<bar> < 2 powr of_int (e + 1)"
    and "\<bar>x / 2 powr of_int (e - 52) - of_int n\<bar> < 1 / 2"
  shows "round_real x = of_int n * 2 powr of_int (e - 52)"
proof -
  have p: "0 < \<bar>x\<bar>"
    using assms(2) powr_gt_zero[of 2 "of_int e"] by linarith
  then have "\<lfloor>log 2 \<bar>x\<bar>\<rfloor> = e"
    using assms(2,3) by (simp add: floor_log_eq_powr_iff)
  with assms(1) have b: "binade x = e" by (simp add: binade_def)
  from p have "x \<noteq> 0" by simp
  with b round_half_even_near[OF assms(4)] show ?thesis
    by (simp add: round_real_def quantum_def)
qed

lemma round_real_0 [simp]: "round_real 0 = 0"
  by (simp add: round_real_def)

lemma round64_exact:
  assumes "round_real x = x" and "\<bar>x\<bar> < overflow_threshold"
  shows "round64 x = Finite x"
  using assms by (simp add: round64_def)

lemma overflow_threshold_large: "2 ^ 100 \<le> overflow_threshold"
proof -
  have "(2::real) ^ 100 \<le> 2 ^ 1024" by (rule power_increasing) simp_all
  moreover have "(2::real) powr 1024 = 2 ^ 1024"
    using powr_realpow[of 2 1024] by simp
  ultimately show ?thesis by (simp only: overflow_threshold_def)
qed

lemma overflow_threshold_pos: "0 < overflow_threshold"
  using overflow_threshold_large by (simp add: order.strict_trans2[of 0 "2 ^ 100"])

lemma round64_0: "round64 0 = Finite 0"
  using overflow_threshold_pos by (simp add: round64_def)

lemma below_overflow: "\<bar>x\<bar> < 2 ^ 100 \<Longrightarrow> \<bar>x\<bar> < overflow_threshold"
  using overflow_threshold_large by linarith

lemma representableI:
  assumes "round_real x = x" and "\<bar>x\<bar> < 2 ^ 100"
  shows "representable x"
  using assms below_overflow[of x] by (simp add: representable_def)

lemma round64_representable: "representable x \<Longrightarrow> round64 x = Finite x"
  by (simp add: representable_def round64_exact)

lemma round_real_1: "round_real 1 = 1"
  using round_real_normal[of 0 1 "2 ^ 52"] by (simp add: powr_neg_numeral)

lemma round_real_20: "round_real 20 = 20"
  using round_real_normal[of 4 20 "20 * 2 ^ 48"] by (simp add: powr_neg_numeral)

lemma round_real_80: "round_real 80 = 80"
  using round_real_normal[of 6 80 "80 * 2 ^ 46"] by (simp add: powr_neg_numeral)

lemma M_PI_bounds: "3 < M_PI" "M_PI < 4"
  by (simp_all add: M_PI_def)

lemma round_real_M_PI: "round_real M_PI = M_PI"
  unfolding M_PI_def
  using round_real_normal[of 1 "884279719003555 / 2 ^ 48" "7074237752028440"]
  by (simp add: powr_neg_numeral)

lemma round_real_minus_M_PI: "round_real (- M_PI) = - M_PI"
  unfolding M_PI_def
  using round_real_normal[of 1 "- (884279719003555 / 2 ^ 48)" "- 7074237752028440"]
  by (simp add: powr_neg_numeral)

lemma round_real_M_PI_8: "round_real (M_PI / 8) = M_PI / 8"
  unfolding M_PI_def
  using round_real_normal[of "-2" "884279719003555 / 2 ^ 48 / 8" "7074237752028440"]
  by (simp add: powr_neg_numeral)

lemma representable_consts:
  "representable 1" "representable 20" "representable 80"
  "representable M_PI" "representable (- M_PI)" "representable (M_PI / 8)"
  using M_PI_bounds
  by (auto intro!: representableI
      simp: round_real_1 round_real_20 round_real_80 round_real_M_PI round_real_minus_M_PI
        round_real_M_PI_8)

lemma M_PI_nonzero: "M_PI \<noteq> 0" "0 < M_PI"
  using M_PI_bounds by simp_all

lemma PI_over_8: "ddiv PI64 (Finite 8) = Finite (M_PI / 8)"
  using M_PI_nonzero
  by (simp add: ddiv_def PI64_def signed_round_def round64_representable[OF representable_consts(6)])

lemma cut20: "dmul (Finite 20) GeV64 = Finite 20"
  by (simp add: dmul_def GeV64_def signed_round_def round64_representable[OF representable_consts(2)])

lemma cut80: "dmul (Finite 80) GeV64 = Finite 80"
  by (simp add: dmul_def GeV64_def signed_round_def round64_representable[OF representable_consts(3)])

lemma zero_minus_PI: "dsub (Finite 0) PI64 = Finite (- M_PI)"
  using M_PI_nonzero
  by (simp add: dsub_def PI64_def round64_representable[OF representable_consts(5)])

lemma dsub_self: "dsub d d = Finite 0 \<or> dsub d d = NaN"
  by (cases d) (simp_all add: dsub_def round64_0)

lemma self_outside_window:
  "\<not> dless (dabs (dsub (dabs (dsub d d)) PI64)) (ddiv PI64 (Finite 8))"
proof -
  from dsub_self[of d] consider "dsub d d = Finite 0" | "dsub d d = NaN" by blast
  then show ?thesis
  proof cases
    case 1
    then show ?thesis using M_PI_nonzero by (simp add: zero_minus_PI PI_over_8)
  next
    case 2
    then show ?thesis by (simp add: dsub_def PI64_def)
  qed
qed

lemma dless_asym: "dless a b \<Longrightarrow> \<not> dless b a"
  by (cases a; cases b) auto

lemma not_dless_trans:
  assumes "a \<noteq> NaN" "b \<noteq> NaN" "c \<noteq> NaN" "\<not> dless a b" "\<not> dless b c"
  shows "\<not> dless a c"
  using assms by (cases a; cases b; cases c) auto

lemma dless_not_NaN: "dless a b \<Longrightarrow> a \<noteq> NaN \<and> b \<noteq> NaN"
  by (cases a; cases b) auto

lemma jet_cut64_pT: "jet_cut64 j \<Longrightarrow> pT64 j \<noteq> NaN \<and> dless (Finite 20) (pT64 j)"
  using dless_not_NaN[of "Finite 20" "pT64 j"] by (simp add: jet_cut64_def cut20)

lemma set_insert_by_pT: "set (insert_by_pT j ks) = insert j (set ks)"
  by (induction ks) auto

lemma length_insert_by_pT: "length (insert_by_pT j ks) = Suc (length ks)"
  by (induction ks) auto

lemma sorted_insert_by_pT:
  assumes "sorted_wrt (\<lambda>a b. \<not> dless (pT64 a) (pT64 b)) ks"
    and "\<forall>k\<in>set ks. pT64 k \<noteq> NaN" and "pT64 j \<noteq> NaN"
  shows "sorted_wrt (\<lambda>a b. \<not> dless (pT64 a) (pT64 b)) (insert_by_pT j ks)"
  using assms
proof (induction ks)
  case Nil
  then show ?case by simp
next
  case (Cons k ks)
  show ?case
  proof (cases "dless (pT64 j) (pT64 k)")
    case True
    from Cons.prems have "sorted_wrt (\<lambda>a b. \<not> dless (pT64 a) (pT64 b)) ks"
      "\<forall>k\<in>set ks. pT64 k \<noteq> NaN" by simp_all
    from Cons.IH[OF this Cons.prems(3)] Cons.prems(1) True dless_asym[OF True]
    show ?thesis by (auto simp: set_insert_by_pT)
  next
    case False
    have "\<not> dless (pT64 j) (pT64 x)" if "x \<in> set ks" for x
    proof -
      from Cons.prems(1) that have "\<not> dless (pT64 k) (pT64 x)" by simp
      moreover from Cons.prems(2) that have "pT64 k \<noteq> NaN" "pT64 x \<noteq> NaN" by simp_all
      ultimately show ?thesis using not_dless_trans[OF Cons.prems(3) _ _ False] by blast
    qed
    with False Cons.prems(1) show ?thesis by simp
  qed
qed

lemma set_jetsByPt64: "set (jetsByPt64 c js) = {j \<in> set js. c j}"
  unfolding jetsByPt64_def by (induction js) (auto simp: set_insert_by_pT)

lemma length_jetsByPt64: "length (jetsByPt64 c js) = length (filter c js)"
  unfolding jetsByPt64_def by (induction js) (auto simp: length_insert_by_pT)

lemma sorted_jetsByPt64:
  "sorted_wrt (\<lambda>a b. \<not> dless (pT64 a) (pT64 b)) (jetsByPt64 jet_cut64 js)"
proof -
  have "sorted_wrt (\<lambda>a b. \<not> dless (pT64 a) (pT64 b)) (foldr insert_by_pT xs [])
      \<and> set (foldr insert_by_pT xs []) = set xs"
    if "\<forall>x\<in>set xs. pT64 x \<noteq> NaN" for xs
    using that
  proof (induction xs)
    case Nil
    then show ?case by simp
  next
    case (Cons x xs)
    then have ih: "sorted_wrt (\<lambda>a b. \<not> dless (pT64 a) (pT64 b)) (foldr insert_by_pT xs [])"
      "set (foldr insert_by_pT xs []) = set xs" by simp_all
    from Cons.prems ih(2) have "\<forall>k\<in>set (foldr insert_by_pT xs []). pT64 k \<noteq> NaN"
      "pT64 x \<noteq> NaN" by simp_all
    from sorted_insert_by_pT[OF ih(1) this] ih(2) show ?case
      by (simp add: set_insert_by_pT)
  qed
  moreover have "\<forall>x\<in>set (filter jet_cut64 js). pT64 x \<noteq> NaN"
    using jet_cut64_pT by simp
  ultimately show ?thesis by (simp add: jetsByPt64_def)
qed

lemma find_jet64_Some:
  "find_jet64 j1 js = Some j2 \<Longrightarrow>
     \<exists>pre post. js = pre @ j2 # post
        \<and> (\<forall>j\<in>set pre. \<not> dless (dabs (dsub (dabs (dsub (phi64 j1) (phi64 j))) PI64))
                                  (ddiv PI64 (Finite 8)))
        \<and> dless (dabs (dsub (dabs (dsub (phi64 j1) (phi64 j2))) PI64)) (ddiv PI64 (Finite 8))"
proof (induction js)
  case Nil
  then show ?case by simp
next
  case (Cons j js)
  show ?case
  proof (cases "dless (dabs (dsub (dabs (dsub (phi64 j1) (phi64 j))) PI64)) (ddiv PI64 (Finite 8))")
    case True
    with Cons.prems have "j2 = j" by (simp add: Let_def)
    with True have "j # js = [] @ j2 # js
        \<and> (\<forall>j\<in>set []. \<not> dless (dabs (dsub (dabs (dsub (phi64 j1) (phi64 j))) PI64))
                                  (ddiv PI64 (Finite 8)))
        \<and> dless (dabs (dsub (dabs (dsub (phi64 j1) (phi64 j2))) PI64)) (ddiv PI64 (Finite 8))"
      by simp
    then show ?thesis by blast
  next
    case False
    with Cons.prems have "find_jet64 j1 js = Some j2" by (simp add: Let_def)
    from Cons.IH[OF this] obtain pre post where
      "js = pre @ j2 # post"
      "\<forall>j\<in>set pre. \<not> dless (dabs (dsub (dabs (dsub (phi64 j1) (phi64 j))) PI64))
                                  (ddiv PI64 (Finite 8))"
      "dless (dabs (dsub (dabs (dsub (phi64 j1) (phi64 j2))) PI64)) (ddiv PI64 (Finite 8))"
      by blast
    with False have "j # js = (j # pre) @ j2 # post
        \<and> (\<forall>j\<in>set (j # pre). \<not> dless (dabs (dsub (dabs (dsub (phi64 j1) (phi64 j))) PI64))
                                  (ddiv PI64 (Finite 8)))
        \<and> dless (dabs (dsub (dabs (dsub (phi64 j1) (phi64 j2))) PI64)) (ddiv PI64 (Finite 8))"
      by simp
    then show ?thesis by blast
  qed
qed

lemma select_jets64_SomeD:
  assumes "select_jets64 js = Some (j1, j2)"
  shows "length (jetsByPt64 jet_cut64 js) > 1" "j1 = hd (jetsByPt64 jet_cut64 js)"
    "\<not> dless (pT64 j1) (Finite 80)" "find_jet64 j1 (jetsByPt64 jet_cut64 js) = Some j2"
  using assms by (auto simp: select_jets64_def Let_def cut80 split: if_splits option.splits)

lemma dless_irrefl: "\<not> dless a a"
  by (cases a) auto

lemma hd_jetsByPt64_max:
  assumes "j \<in> set (jetsByPt64 jet_cut64 js)"
  shows "\<not> dless (pT64 (hd (jetsByPt64 jet_cut64 js))) (pT64 j)"
proof -
  from assms obtain x xs where eq: "jetsByPt64 jet_cut64 js = x # xs"
    by (cases "jetsByPt64 jet_cut64 js") auto
  have "sorted_wrt (\<lambda>a b. \<not> dless (pT64 a) (pT64 b)) (x # xs)"
    using sorted_jetsByPt64[of js] eq by simp
  then have "\<forall>y\<in>set xs. \<not> dless (pT64 x) (pT64 y)" by simp
  with assms eq dless_irrefl[of "pT64 x"] show ?thesis by auto
qed

lemma round64_nonneg:
  assumes "0 \<le> x" and "round_real x < overflow_threshold"
  shows "round64 x = Finite (round_real x)"
proof -
  have "0 \<le> round_real x" by (rule round_real_nonneg[OF assms(1)])
  with assms show ?thesis by (simp add: round64_def Let_def)
qed

lemma one_below_overflow: "1 < overflow_threshold"
  using overflow_threshold_large by (simp add: order.strict_trans2[of 1 "2 ^ 100"])



lemma round_real_edge: "round_real (- (9 * M_PI / 8)) = - (9 * M_PI / 8)"
  unfolding M_PI_def
  using round_real_normal[of 1 "- (9 * (884279719003555 / 2 ^ 48) / 8)" "- 7958517471031995"]
  by (simp add: powr_neg_numeral)

lemma round_real_edge_pos: "round_real (9 * M_PI / 8) = 9 * M_PI / 8"
  unfolding M_PI_def
  using round_real_normal[of 1 "9 * (884279719003555 / 2 ^ 48) / 8" "7958517471031995"]
  by (simp add: powr_neg_numeral)

lemma round_real_100: "round_real 100 = 100"
  using round_real_normal[of 6 100 "100 * 2 ^ 46"] by (simp add: powr_neg_numeral)

lemma round_real_21: "round_real 21 = 21"
  using round_real_normal[of 4 21 "21 * 2 ^ 48"] by (simp add: powr_neg_numeral)

lemma round_real_1e18: "round_real 1000000000000000000 = 1000000000000000000"
  using round_real_normal[of 59 "1000000000000000000" "7812500000000000"]
  by simp

lemma round_real_1e18_minus: "round_real 999999999999999979 = 1000000000000000000"
  using round_real_normal[of 59 "999999999999999979" "7812500000000000"]
  by simp

lemma round_real_1e18_plus: "round_real 1000000000000000021 = 1000000000000000000"
  using round_real_normal[of 59 "1000000000000000021" "7812500000000000"]
  by simp

lemma representable_examples:
  "representable 100" "representable 21" "representable 1000000000000000000"
  "representable (9 * M_PI / 8)" "representable (- (9 * M_PI / 8))"
  using M_PI_bounds
  by (auto intro!: representableI
      simp: round_real_100 round_real_21 round_real_1e18 round_real_edge round_real_edge_pos)

lemma round64_1e18:
  "round64 999999999999999979 = Finite 1000000000000000000"
  "round64 1000000000000000021 = Finite 1000000000000000000"
  using below_overflow[of "1000000000000000000"]
  by (simp_all add: round64_def round_real_1e18_minus round_real_1e18_plus)

lemma edge_outside_window:
  "\<not> dless (dabs (dsub (dabs (dsub (Finite 0) (Finite (9 * M_PI / 8)))) PI64))
           (ddiv PI64 (Finite 8))"
proof -
  have a: "dsub (Finite 0) (Finite (9 * M_PI / 8)) = Finite (- (9 * M_PI / 8))"
    using M_PI_nonzero by (simp add: dsub_def round64_representable[OF representable_examples(5)])
  have b: "dabs (Finite (- (9 * M_PI / 8))) = Finite (9 * M_PI / 8)"
    using M_PI_nonzero by simp
  have "9 * M_PI / 8 + - M_PI = M_PI / 8" by simp
  then have c: "dsub (Finite (9 * M_PI / 8)) PI64 = Finite (M_PI / 8)"
    using M_PI_nonzero
    by (simp add: dsub_def PI64_def round64_representable[OF representable_consts(6)])
  show ?thesis
    unfolding a b c PI_over_8 using M_PI_nonzero by simp
qed

lemma back_inside_window:
  "dless (dabs (dsub (dabs (dsub (Finite 0) PI64)) PI64)) (ddiv PI64 (Finite 8))"
proof -
  have b: "dabs (Finite (- M_PI)) = Finite M_PI"
    using M_PI_nonzero by simp
  have c: "dsub (Finite M_PI) PI64 = Finite 0"
    using M_PI_nonzero by (simp add: dsub_def PI64_def round64_0)
  show ?thesis
    unfolding zero_minus_PI b c PI_over_8 using M_PI_nonzero by simp
qed

lemma cut_examples:
  "jet_cut64 j_lead" "jet_cut64 j_edge" "jet_cut64 j_back" "jet_cut64 j_hard" "jet_cut64 j_soft"
  by (simp_all add: jet_cut64_def cut20 j_lead_def j_edge_def j_back_def j_hard_def j_soft_def)

lemma jets_three: "jetsByPt64 jet_cut64 [j_lead, j_edge, j_back] = [j_lead, j_edge, j_back]"
  by (simp add: jetsByPt64_def cut_examples) (simp add: j_lead_def j_edge_def j_back_def)

lemma jets_two: "jetsByPt64 jet_cut64 [j_hard, j_soft] = [j_hard, j_soft]"
  by (simp add: jetsByPt64_def cut_examples) (simp add: j_hard_def j_soft_def)

lemma select_three: "select_jets64 [j_lead, j_edge, j_back] = Some (j_lead, j_back)"
proof -
  have "find_jet64 j_lead [j_lead, j_edge, j_back] = Some j_back"
    using self_outside_window[of "phi64 j_lead"] edge_outside_window back_inside_window
    by (simp add: Let_def) (simp add: j_lead_def j_edge_def j_back_def)
  then show ?thesis
    by (simp add: select_jets64_def jets_three cut80) (simp add: j_lead_def)
qed

lemma select_two: "select_jets64 [j_hard, j_soft] = Some (j_hard, j_soft)"
proof -
  have "find_jet64 j_hard [j_hard, j_soft] = Some j_soft"
    using self_outside_window[of "phi64 j_hard"] back_inside_window
    by (simp add: Let_def) (simp add: j_hard_def j_soft_def)
  then show ?thesis
    by (simp add: select_jets64_def jets_two cut80) (simp add: j_hard_def)
qed

section \<open>Rejected events\<close>

text \<open>
  C6. An event with fewer than two jets passing the cut (\<open>pT > 20 GeV\<close> and
  \<open>|eta| < 2.0\<close>) emits no row: \<open>analyze\<close> returns, and the file, the header flag and the
  event counter are as before.
\<close>

theorem few_jets_no_row:
  assumes "length (filter jet_cut (jets e)) < 2"
  shows "\<exists>s'. analyze e s = Inr s' \<and> file_out s' = file_out s
           \<and> firstPrint s' = firstPrint s \<and> eventNumber s' = eventNumber s"
proof -
  have "select_jets e = None"
    using assms by (simp add: select_jets_def length_jetsByPt)
  then show ?thesis by (simp add: analyze_veto)
qed

theorem few_jets_no_row_witness:
  "length (filter jet_cut (jets ex_single)) < 2
   \<and> (\<exists>s'. analyze ex_single s_open = Inr s' \<and> file_out s' = file_out s_open
           \<and> firstPrint s' = firstPrint s_open \<and> eventNumber s' = eventNumber s_open)"
  using few_jets_no_row[of ex_single s_open]
  by (simp add: ex_single_def jet_cut_def jetA_def GeV_def)

text \<open>
  C7. An event whose highest-pT jet passing the cut has \<open>pT < 80 GeV\<close>, that is, in
  which every jet passing the cut has \<open>pT < 80 GeV\<close>, emits no row, however many jets pass
  the cut.
\<close>

theorem soft_leading_jet_no_row:
  assumes "\<forall>j\<in>set (jets e). jet_cut j \<longrightarrow> pT j < 80 * GeV"
  shows "\<exists>s'. analyze e s = Inr s' \<and> file_out s' = file_out s
           \<and> firstPrint s' = firstPrint s \<and> eventNumber s' = eventNumber s"
proof -
  have "select_jets e = None"
  proof (cases "length (jetsByPt jet_cut (jets e)) > 1")
    case True
    then have "hd (jetsByPt jet_cut (jets e)) \<in> set (jetsByPt jet_cut (jets e))"
      by (cases "jetsByPt jet_cut (jets e)") auto
    with assms have "pT (hd (jetsByPt jet_cut (jets e))) < 80 * GeV"
      by (simp add: set_jetsByPt)
    with True show ?thesis by (simp add: select_jets_def)
  next
    case False
    then show ?thesis by (simp add: select_jets_def)
  qed
  then show ?thesis by (simp add: analyze_veto)
qed

theorem soft_leading_jet_no_row_witness:
  "list_all (\<lambda>j. pT j < 80 * GeV) (filter jet_cut (jets ex_soft))
   \<and> length (filter jet_cut (jets ex_soft)) = 2
   \<and> (\<exists>s'. analyze ex_soft s_open = Inr s' \<and> file_out s' = file_out s_open
           \<and> firstPrint s' = firstPrint s_open \<and> eventNumber s' = eventNumber s_open)"
  using soft_leading_jet_no_row[of ex_soft s_open]
  by (simp add: ex_soft_def jet_cut_def GeV_def)

text \<open>
  C8. An event in which no jet passing the cut has an azimuthal separation from the
  leading jet (the head of the jet list) within \<open>pi/8\<close> of \<open>pi\<close> emits no row.
\<close>

theorem no_opposite_jet_no_row:
  assumes "\<forall>j\<in>set (jets e). jet_cut j \<longrightarrow>
             \<not> \<bar>\<bar>phi (hd (jetsByPt jet_cut (jets e))) - phi j\<bar> - pi\<bar> < pi / 8"
  shows "\<exists>s'. analyze e s = Inr s' \<and> file_out s' = file_out s
           \<and> firstPrint s' = firstPrint s \<and> eventNumber s' = eventNumber s"
proof -
  have "find_jet (hd (jetsByPt jet_cut (jets e))) (jetsByPt jet_cut (jets e)) = None"
    using assms by (simp add: find_jet_None set_jetsByPt)
  then have "select_jets e = None"
    by (simp add: select_jets_def Let_def)
  then show ?thesis by (simp add: analyze_veto)
qed

theorem no_opposite_jet_no_row_witness:
  "list_all (\<lambda>j. \<not> \<bar>\<bar>phi (hd (jetsByPt jet_cut (jets ex_collinear))) - phi j\<bar> - pi\<bar> < pi / 8)
     (filter jet_cut (jets ex_collinear))
   \<and> length (filter jet_cut (jets ex_collinear)) = 2
   \<and> (\<exists>s'. analyze ex_collinear s_open = Inr s' \<and> file_out s' = file_out s_open
           \<and> firstPrint s' = firstPrint s_open \<and> eventNumber s' = eventNumber s_open)"
proof -
  have h: "\<forall>j\<in>set (jets ex_collinear). jet_cut j \<longrightarrow>
      \<not> \<bar>\<bar>phi (hd (jetsByPt jet_cut (jets ex_collinear))) - phi j\<bar> - pi\<bar> < pi / 8"
    using pi_gt_zero by (simp add: jets_ex_collinear) (simp add: ex_collinear_def jetA_def)
  have n: "length (filter jet_cut (jets ex_collinear)) = 2"
    by (simp add: ex_collinear_def jet_cut_def jetA_def GeV_def)
  from h have "list_all (\<lambda>j. \<not> \<bar>\<bar>phi (hd (jetsByPt jet_cut (jets ex_collinear))) - phi j\<bar> - pi\<bar> < pi / 8)
     (filter jet_cut (jets ex_collinear))"
    by (simp add: list_all_iff)
  with n no_opposite_jet_no_row[OF h, of s_open] show ?thesis by blast
qed

section \<open>The second jet\<close>




section \<open>The asymmetry\<close>

text \<open>
  C10, as stated: for every selected event \<open>0 \<le> Aj < 1\<close>. In doubles, with
  \<open>E1 = 1e18\<close> and \<open>E2 = 21\<close> both \<open>E1 - E2\<close> and \<open>E1 + E2\<close> round to \<open>1e18\<close>, and
  \<open>Aj\<close> is exactly 1.
\<close>

theorem asymmetry_one_counterexample:
  "representable 1000000000000000000 \<and> representable 21
   \<and> pT64 j_hard = Finite 1000000000000000000 \<and> pT64 j_soft = Finite 21
   \<and> select_jets64 [j_hard, j_soft] = Some (j_hard, j_soft)
   \<and> Aj64 j_hard j_soft = Finite 1"
proof -
  have "Aj64 j_hard j_soft = Finite 1"
    by (simp add: Aj64_def j_hard_def j_soft_def dsub_def round64_1e18 ddiv_def signed_round_def
        round64_representable[OF representable_consts(1)])
  with representable_examples(2,3) select_two show ?thesis
    by (simp add: j_hard_def j_soft_def)
qed

text \<open>
  C10, amended: for every selected event whose leading jet has a finite \<open>pT\<close>, the division
  in \<open>Aj = (E1 - E2) / (E1 + E2)\<close> is well defined: \<open>j1\<close> has \<open>pT \<ge> 80 GeV\<close> and \<open>j2\<close> has
  a finite \<open>pT > 20 GeV\<close>, so the computed denominator is strictly positive; \<open>j1\<close> is the
  head of the descending-pT list from which \<open>j2\<close> is taken, so \<open>E1 \<ge> E2\<close>; and the computed
  value is a number with \<open>0 \<le> Aj \<le> 1\<close>.
\<close>

theorem asymmetry_in_unit_interval:
  assumes "select_jets64 js = Some (j1, j2)" and "pT64 j1 = Finite E1" and "representable E1"
  shows "\<exists>E2 a. pT64 j2 = Finite E2 \<and> 80 \<le> E1 \<and> 20 < E2 \<and> E2 \<le> E1
     \<and> dless (Finite 0) (dadd (pT64 j1) (pT64 j2))
     \<and> Aj64 j1 j2 = ddiv (dsub (Finite E1) (Finite E2)) (dadd (Finite E1) (Finite E2))
     \<and> Aj64 j1 j2 = Finite a \<and> 0 \<le> a \<and> a \<le> 1"
proof -
  let ?jl = "jetsByPt64 jet_cut64 js"
  note d = select_jets64_SomeD[OF assms(1)]
  from find_jet64_Some[OF d(4)] have m: "j2 \<in> set ?jl" by auto
  then have "jet_cut64 j2" by (simp add: set_jetsByPt64)
  then have lo: "dless (Finite 20) (pT64 j2)" by (simp add: jet_cut64_pT)
  from hd_jetsByPt64_max[OF m] d(2) assms(2) have hi: "\<not> dless (Finite E1) (pT64 j2)" by simp
  from lo hi obtain E2 where E2: "pT64 j2 = Finite E2" "20 < E2" "E2 \<le> E1"
    by (cases "pT64 j2") auto
  from d(3) assms(2) have E1: "80 \<le> E1" by simp
  from assms(3) have rep: "round_real E1 = E1" "E1 < overflow_threshold"
    by (auto simp: representable_def)
  \<comment> \<open>the denominator\<close>
  define rd where "rd = round_real (E1 + E2)"
  have "round_real 20 \<le> rd"
    unfolding rd_def using E1 E2 by (intro round_real_mono_pos) auto
  then have rd: "20 \<le> rd" by (simp add: round_real_20)
  have den: "dadd (pT64 j1) (pT64 j2) = PlusInf \<or> dadd (pT64 j1) (pT64 j2) = Finite rd"
    using rd E1 E2 by (simp add: assms(2) E2(1) round64_def rd_def Let_def)
  have pos: "dless (Finite 0) (dadd (pT64 j1) (pT64 j2))"
    using den rd by auto
  \<comment> \<open>the numerator\<close>
  define rn where "rn = round_real (E1 - E2)"
  have rn0: "0 \<le> rn" unfolding rn_def using E2 by (intro round_real_nonneg) simp
  have rn1: "rn \<le> E1 \<and> rn \<le> rd"
  proof (cases "E1 = E2")
    case True
    with E1 rd show ?thesis by (simp add: rn_def)
  next
    case False
    with E2 have p: "0 < E1 - E2" by simp
    have "round_real (E1 - E2) \<le> round_real E1"
      using E2 by (intro round_real_mono_pos[OF p]) simp
    moreover have "round_real (E1 - E2) \<le> round_real (E1 + E2)"
      using E2 by (intro round_real_mono_pos[OF p]) simp
    ultimately show ?thesis by (simp add: rn_def rd_def rep)
  qed
  have "round64 (E1 - E2) = Finite rn"
    unfolding rn_def using E2 rn1 rep by (intro round64_nonneg) (auto simp: rn_def)
  then have num: "dsub (pT64 j1) (pT64 j2) = Finite rn"
    using E2 by (simp add: dsub_def assms(2))
  \<comment> \<open>the quotient\<close>
  have "\<exists>a. ddiv (Finite rn) (dadd (pT64 j1) (pT64 j2)) = Finite a \<and> 0 \<le> a \<and> a \<le> 1"
  proof -
    from den consider "dadd (pT64 j1) (pT64 j2) = PlusInf"
      | "dadd (pT64 j1) (pT64 j2) = Finite rd" by blast
    then show ?thesis
    proof cases
      case 1
      with rn0 show ?thesis by (simp add: ddiv_def signed_zero_def)
    next
      case 2
      show ?thesis
      proof (cases "rn = 0")
        case True
        with 2 rd show ?thesis by (simp add: ddiv_def signed_zero_def)
      next
        case False
        with rn0 have rp: "0 < rn" by simp
        with rd rn1 have q: "0 < rn / rd" "rn / rd \<le> 1" by simp_all
        have "round_real (rn / rd) \<le> round_real 1"
          by (rule round_real_mono_pos[OF q])
        then have u: "round_real (rn / rd) \<le> 1" by (simp add: round_real_1)
        have l: "0 \<le> round_real (rn / rd)" using q(1) by (intro round_real_nonneg) simp
        have "round64 (rn / rd) = Finite (round_real (rn / rd))"
          using q(1) u one_below_overflow by (intro round64_nonneg) auto
        with 2 rp rd l u show ?thesis
          by (simp add: ddiv_def signed_round_def)
      qed
    qed
  qed
  then obtain a where a: "Aj64 j1 j2 = Finite a" "0 \<le> a" "a \<le> 1"
    by (auto simp: Aj64_def Let_def num)
  have f: "Aj64 j1 j2 = ddiv (dsub (Finite E1) (Finite E2)) (dadd (Finite E1) (Finite E2))"
    by (simp add: Aj64_def assms(2) E2(1))
  from E2 E1 pos f a show ?thesis by blast
qed

theorem asymmetry_in_unit_interval_witness:
  "select_jets64 [j_lead, j_edge, j_back] = Some (j_lead, j_back)
   \<and> pT64 j_lead = Finite 100 \<and> representable 100
   \<and> (\<exists>E2 a. pT64 j_back = Finite E2 \<and> 80 \<le> (100::real) \<and> 20 < E2 \<and> E2 \<le> 100
     \<and> dless (Finite 0) (dadd (pT64 j_lead) (pT64 j_back))
     \<and> Aj64 j_lead j_back = ddiv (dsub (Finite 100) (Finite E2)) (dadd (Finite 100) (Finite E2))
     \<and> Aj64 j_lead j_back = Finite a \<and> 0 \<le> a \<and> a \<le> 1)"
proof -
  have p: "pT64 j_lead = Finite 100" by (simp add: j_lead_def)
  note t = asymmetry_in_unit_interval[OF select_three p representable_examples(1)]
  from select_three p representable_examples(1) t show ?thesis by (intro conjI)
qed

section \<open>The recorded values\<close>

text \<open>
  C4, as stated: for a leading jet with \<open>pT = 100 GeV\<close> at \<open>phi = 0\<close> and a second jet with
  \<open>pT = 60 GeV\<close> at \<open>phi = pi\<close> the recorded asymmetry would be \<open>0.2\<close>. The source computes
  \<open>(100 - 60) / (100 + 60) = 0.25\<close>.
\<close>

theorem back_to_back_Aj_counterexample:
  "field_after ''Aj'' (analyze ex_dijet s_open) = Some (1 / 4)
   \<and> field_after ''Aj'' (analyze ex_dijet s_open) \<noteq> Some 0.2"
  by (simp add: field_after_def analyze_ex_dijet map_of_final_record jetA_def jetB_def)


text \<open>
  C4, amended: for a jet list consisting of a leading jet with \<open>pT = 100 GeV\<close> at \<open>phi = 0\<close>
  and a second jet with \<open>pT = 60 GeV\<close> at \<open>phi = pi\<close>, and a non-empty weight vector, the
  event is selected, its row is written when the file is open, and the record holds
  \<open>Jet1_pT = 100\<close>, \<open>Jet2_pT = 60\<close>, \<open>Aj = 0.25\<close>, \<open>JetAngle = 180\<close> and \<open>Jet1_Ang = 0\<close>.
\<close>

theorem back_to_back_example:
  assumes "jetsByPt jet_cut (jets e) = [j1, j2]"
    and "pT j1 = 100 * GeV" and "phi j1 = 0"
    and "pT j2 = 60 * GeV" and "phi j2 = pi"
    and "weights e = w # ws"
  shows "\<exists>s'. analyze e s = Inr s'
     \<and> map_of (toWrite s') ''Jet1_pT'' = Some 100
     \<and> map_of (toWrite s') ''Jet2_pT'' = Some 60
     \<and> map_of (toWrite s') ''Aj'' = Some (1 / 4)
     \<and> map_of (toWrite s') ''JetAngle'' = Some 180
     \<and> map_of (toWrite s') ''Jet1_Ang'' = Some 0
     \<and> file_out s' =
         (if file_is_open s
          then file_out s @ (if firstPrint s then header_line (toWrite s') else [])
               @ row_line (toWrite s')
          else file_out s)"
proof -
  have "find_jet j1 [j1, j2] = Some j2"
    using assms(3,5) pi_gt_zero by (simp add: Let_def)
  then have sel: "select_jets e = Some (j1, j2)"
    using assms(1,2) by (simp add: select_jets_def GeV_def)
  show ?thesis
    using assms(2-5) pi_gt_zero
    by (simp add: analyze_accept[OF sel assms(6)] map_of_final_record GeV_def)
qed

theorem back_to_back_example_witness:
  "jetsByPt jet_cut (jets ex_dijet) = [jetA, jetB]
   \<and> pT jetA = 100 * GeV \<and> phi jetA = 0 \<and> pT jetB = 60 * GeV \<and> phi jetB = pi
   \<and> weights ex_dijet = [1]
   \<and> (\<exists>s'. analyze ex_dijet s_open = Inr s'
     \<and> map_of (toWrite s') ''Jet1_pT'' = Some 100
     \<and> map_of (toWrite s') ''Jet2_pT'' = Some 60
     \<and> map_of (toWrite s') ''Aj'' = Some (1 / 4)
     \<and> map_of (toWrite s') ''JetAngle'' = Some 180
     \<and> map_of (toWrite s') ''Jet1_Ang'' = Some 0
     \<and> file_out s' =
         (if file_is_open s_open
          then file_out s_open @ (if firstPrint s_open then header_line (toWrite s') else [])
               @ row_line (toWrite s')
          else file_out s_open))"
proof -
  have h: "pT jetA = 100 * GeV" "phi jetA = 0" "pT jetB = 60 * GeV" "phi jetB = pi"
    "weights ex_dijet = [1]"
    by (simp_all add: jetA_def jetB_def GeV_def ex_dijet_def)
  show ?thesis
    using back_to_back_example[OF jets_ex_dijet h, of s_open] jets_ex_dijet h by blast
qed

section \<open>The record across events\<close>

text \<open>
  C2, as stated: the record would be created fresh for every event, and a rejected event
  would leave the accumulator unchanged. The map is a member of the class and is never
  cleared. A rejected event that carries a heavy-ion block stores \<open>Polar\<close> and \<open>JProdR\<close>
  before it is vetoed, and a later selected event without a heavy-ion block prints them.
\<close>

theorem rejected_event_carries_over_counterexample:
  "select_jets ex_nojet_hi = None
   \<and> toWrite s_open = []
   \<and> analyze ex_nojet_hi s_open = Inr (s_open\<lparr>toWrite := [(''JProdR'', 9), (''Polar'', 7)]\<rparr>)
   \<and> heavy_ion ex_dijet = None
   \<and> file_after (run_events [ex_nojet_hi, ex_dijet] s_open) =
       header_line [(''Aj'', 1 / 4), (''JProdR'', 9), (''Jet1_Ang'', 0), (''Jet1_pT'', 100),
                    (''Jet2_pT'', 60), (''JetAngle'', 180), (''Polar'', 7), (''Weight'', 1)]
       @ row_line [(''Aj'', 1 / 4), (''JProdR'', 9), (''Jet1_Ang'', 0), (''Jet1_pT'', 100),
                   (''Jet2_pT'', 60), (''JetAngle'', 180), (''Polar'', 7), (''Weight'', 1)]"
proof -
  have "heavy_ion ex_dijet = None" by (simp add: ex_dijet_def)
  then show ?thesis
    by (simp only: select_ex_nojet_hi s_open_simps analyze_ex_nojet_hi file_after_stale
        record_ex_dijet_stale simp_thms)
qed

text \<open>
  C2, amended: the record lives for the whole run and is never cleared. A rejected event
  emits no row and leaves the header flag and the event counter as they were; in the
  record it changes at most \<open>Polar\<close> and \<open>JProdR\<close>: when it carries a heavy-ion block these
  two fields take the event-plane angle and the eccentricity of that block, without one the
  record is unchanged. The two values stay in the record through any sequence of later
  events that have no heavy-ion block.
\<close>

theorem rejected_event_keeps_heavy_ion_values:
  assumes "select_jets e = None"
  shows "\<exists>s'. analyze e s = Inr s'
     \<and> file_out s' = file_out s \<and> firstPrint s' = firstPrint s
     \<and> eventNumber s' = eventNumber s
     \<and> toWrite s' = record_heavy_ion e (toWrite s)
     \<and> (heavy_ion e = None \<longrightarrow> toWrite s' = toWrite s)
     \<and> (\<forall>hion. heavy_ion e = Some hion \<longrightarrow>
            map_of (toWrite s') ''Polar'' = Some (event_plane_angle hion)
          \<and> map_of (toWrite s') ''JProdR'' = Some (eccentricity hion))
     \<and> (\<forall>k. k \<noteq> ''Polar'' \<and> k \<noteq> ''JProdR'' \<longrightarrow> map_of (toWrite s') k = map_of (toWrite s) k)
     \<and> (\<forall>es s''. (\<forall>x\<in>set es. heavy_ion x = None) \<and> run_events es s' = Inr s'' \<longrightarrow>
            map_of (toWrite s'') ''Polar'' = map_of (toWrite s') ''Polar''
          \<and> map_of (toWrite s'') ''JProdR'' = map_of (toWrite s') ''JProdR'')"
proof (intro exI conjI allI impI)
  let ?s' = "s\<lparr>toWrite := record_heavy_ion e (toWrite s)\<rparr>"
  show "analyze e s = Inr ?s'" by (rule analyze_veto[OF assms])
  show "file_out ?s' = file_out s" by simp
  show "firstPrint ?s' = firstPrint s" by simp
  show "eventNumber ?s' = eventNumber s" by simp
  show "toWrite ?s' = record_heavy_ion e (toWrite s)" by simp
  show "toWrite ?s' = toWrite s" if "heavy_ion e = None"
    using that by (simp add: record_heavy_ion_None)
  show "map_of (toWrite ?s') ''Polar'' = Some (event_plane_angle hion)"
    if "heavy_ion e = Some hion" for hion
    using map_of_record_heavy_ion_Some(1)[OF that] by simp
  show "map_of (toWrite ?s') ''JProdR'' = Some (eccentricity hion)"
    if "heavy_ion e = Some hion" for hion
    using map_of_record_heavy_ion_Some(2)[OF that] by simp
  show "map_of (toWrite ?s') k = map_of (toWrite s) k" if "k \<noteq> ''Polar'' \<and> k \<noteq> ''JProdR''" for k
    using that by (simp add: map_of_record_heavy_ion_other)
  show "map_of (toWrite s'') ''Polar'' = map_of (toWrite ?s') ''Polar''"
    if "(\<forall>x\<in>set es. heavy_ion x = None) \<and> run_events es ?s' = Inr s''" for es s''
    by (rule conjunct1[OF run_keeps_heavy_ion_fields[OF conjunct1[OF that] conjunct2[OF that]]])
  show "map_of (toWrite s'') ''JProdR'' = map_of (toWrite ?s') ''JProdR''"
    if "(\<forall>x\<in>set es. heavy_ion x = None) \<and> run_events es ?s' = Inr s''" for es s''
    by (rule conjunct2[OF run_keeps_heavy_ion_fields[OF conjunct1[OF that] conjunct2[OF that]]])
qed

theorem rejected_event_keeps_heavy_ion_values_witness:
  "select_jets ex_nojet_hi = None
   \<and> (\<exists>s'. analyze ex_nojet_hi s_open = Inr s'
     \<and> file_out s' = file_out s_open \<and> firstPrint s' = firstPrint s_open
     \<and> eventNumber s' = eventNumber s_open
     \<and> toWrite s' = record_heavy_ion ex_nojet_hi (toWrite s_open)
     \<and> (heavy_ion ex_nojet_hi = None \<longrightarrow> toWrite s' = toWrite s_open)
     \<and> (\<forall>hion. heavy_ion ex_nojet_hi = Some hion \<longrightarrow>
            map_of (toWrite s') ''Polar'' = Some (event_plane_angle hion)
          \<and> map_of (toWrite s') ''JProdR'' = Some (eccentricity hion))
     \<and> (\<forall>k. k \<noteq> ''Polar'' \<and> k \<noteq> ''JProdR'' \<longrightarrow> map_of (toWrite s') k = map_of (toWrite s_open) k)
     \<and> (\<forall>es s''. (\<forall>x\<in>set es. heavy_ion x = None) \<and> run_events es s' = Inr s'' \<longrightarrow>
            map_of (toWrite s'') ''Polar'' = map_of (toWrite s') ''Polar''
          \<and> map_of (toWrite s'') ''JProdR'' = map_of (toWrite s') ''JProdR''))
   \<and> field_after ''Polar'' (analyze ex_nojet_hi s_open) = Some 7
   \<and> field_after ''JProdR'' (analyze ex_nojet_hi s_open) = Some 9
   \<and> field_after ''Polar'' (run_events [ex_nojet_hi, ex_dijet] s_open) = Some 7
   \<and> field_after ''JProdR'' (run_events [ex_nojet_hi, ex_dijet] s_open) = Some 9"
proof -
  define s1 where "s1 = s_open\<lparr>toWrite := [(''JProdR'', 9), (''Polar'', 7)]\<rparr>"
  have a: "analyze ex_nojet_hi s_open = Inr s1"
    unfolding s1_def by (rule analyze_ex_nojet_hi)
  have r: "run_events [ex_nojet_hi, ex_dijet] s_open = analyze ex_dijet s1"
    by (simp only: run_events_step[OF a] run_events_single)
  have f: "field_after ''Polar'' (analyze ex_nojet_hi s_open) = Some 7"
    "field_after ''JProdR'' (analyze ex_nojet_hi s_open) = Some 9"
    by (simp_all add: a field_after_def s1_def)
  have g: "field_after ''Polar'' (run_events [ex_nojet_hi, ex_dijet] s_open) = Some 7"
    "field_after ''JProdR'' (run_events [ex_nojet_hi, ex_dijet] s_open) = Some 9"
    unfolding r by (simp_all add: field_after_def analyze_ex_dijet s1_def record_ex_dijet_stale)
  note t = rejected_event_keeps_heavy_ion_values[OF select_ex_nojet_hi, of s_open]
  from select_ex_nojet_hi t f g show ?thesis by (intro conjI)
qed

section \<open>A file that could not be opened\<close>

text \<open>
  C5. If the file cannot be opened in \<open>init\<close>, the warning is sent to the console once,
  every later call of \<open>print\<close> leaves the state as it is, nothing at all is written to the
  file during the run, and the run (with a first weight in every event) returns, also
  through \<open>finalize\<close>.
\<close>

theorem failed_open_writes_nothing:
  assumes "\<not> can_open (file_name name)" and "\<forall>e\<in>set es. weights e \<noteq> []"
  shows "console (init can_open name) =
       [CHR 0x0A, CHR 0x0A] @ ''Out file name: '' @ [CHR 0x0A]
       @ ''[WARNING] Could not open file.'' @ [CHR 0x0A]
     \<and> (\<exists>s. run_events es (init can_open name) = Inr s
          \<and> file_out s = [] \<and> \<not> file_is_open s
          \<and> (\<forall>var. print var s = s)
          \<and> file_out (finalize s) = []
          \<and> console (finalize s) =
              [CHR 0x0A, CHR 0x0A] @ ''Out file name: '' @ [CHR 0x0A]
              @ ''[WARNING] Could not open file.'' @ [CHR 0x0A])"
proof -
  let ?s0 = "init can_open name"
  have i: "\<not> file_is_open ?s0" "file_out ?s0 = []" "\<not> open_flag ?s0"
    "console ?s0 = [CHR 0x0A, CHR 0x0A] @ ''Out file name: '' @ [CHR 0x0A]
       @ ''[WARNING] Could not open file.'' @ [CHR 0x0A]"
    using assms(1) by (simp_all add: init_def prompt_def warning_def newline_def)
  from run_closed[OF i(1) assms(2)] obtain s where
    s: "run_events es ?s0 = Inr s" "file_out s = file_out ?s0"
    "file_is_open s = file_is_open ?s0" "open_flag s = open_flag ?s0" "console s = console ?s0"
    by blast
  have f: "finalize s = s" using s(4) i(3) by (simp add: finalize_def)
  have p: "\<forall>var. print var s = s" using s(3) i(1) by (simp add: print_def)
  from s i f p show ?thesis by auto
qed

theorem failed_open_writes_nothing_witness:
  "\<not> (\<lambda>path. False) (file_name ''out.dat'')
   \<and> list_all (\<lambda>e. weights e \<noteq> []) [ex_nojet_hi, ex_dijet, ex_dijet_hi]
   \<and> console s_closed =
       [CHR 0x0A, CHR 0x0A] @ ''Out file name: '' @ [CHR 0x0A]
       @ ''[WARNING] Could not open file.'' @ [CHR 0x0A]
   \<and> (\<exists>s. run_events [ex_nojet_hi, ex_dijet, ex_dijet_hi] s_closed = Inr s
          \<and> file_out s = [] \<and> \<not> file_is_open s
          \<and> (\<forall>var. print var s = s)
          \<and> file_out (finalize s) = []
          \<and> console (finalize s) =
              [CHR 0x0A, CHR 0x0A] @ ''Out file name: '' @ [CHR 0x0A]
              @ ''[WARNING] Could not open file.'' @ [CHR 0x0A])"
proof -
  have h: "\<forall>e\<in>set [ex_nojet_hi, ex_dijet, ex_dijet_hi]. weights e \<noteq> []"
    by (simp add: ex_nojet_hi_def ex_dijet_def ex_dijet_hi_def)
  have c: "\<not> (\<lambda>path. False) (file_name ''out.dat'')" by simp
  from h have l: "list_all (\<lambda>e. weights e \<noteq> []) [ex_nojet_hi, ex_dijet, ex_dijet_hi]"
    by (simp only: list_all_iff)
  note t = failed_open_writes_nothing[of "\<lambda>path. False" "''out.dat''", OF c h]
  from c l conjunct1[OF t] conjunct2[OF t] show ?thesis
    unfolding s_closed_def by (intro conjI)
qed

section \<open>The table\<close>







end
